theory Spec2Isabelle
  imports Main
begin

section \<open>The Cloud Debugger bootstrap: \<open>googleclouddebugger/__init__.py\<close>\<close>

text \<open>
  The module has one piece of module state, the global \<open>_flags\<close> (initially \<open>None\<close>),
  and three functions: \<open>_StartDebugger\<close>, \<open>_DebuggerMain\<close> and \<open>AttachDebugger\<close>.
  Isabelle identifiers cannot start with an underscore, so the first two are called
  \<open>StartDebugger\<close> and \<open>DebuggerMain\<close> below.
\<close>

subsection \<open>Python values\<close>

text \<open>
  The values a flag can hold. The command line only produces strings; the keyword
  arguments of \<open>AttachDebugger\<close> can be any object. \<open>PyObj\<close> stands for an object
  that is compared by identity (a module, a function, the builtins).
\<close>

datatype pyval = PyStr string | PyBool bool | PyInt int | PyNone | PyObj nat

text \<open>Python's \<open>==\<close> on these values: \<open>bool\<close> is a subclass of \<open>int\<close>, so \<open>True == 1\<close>.\<close>

fun py_eq :: "pyval \<Rightarrow> pyval \<Rightarrow> bool" where
  "py_eq (PyStr a) (PyStr b) = (a = b)"
| "py_eq (PyBool a) (PyBool b) = (a = b)"
| "py_eq (PyInt a) (PyInt b) = (a = b)"
| "py_eq (PyBool a) (PyInt b) = ((if a then 1 else 0) = b)"
| "py_eq (PyInt a) (PyBool b) = (a = (if b then 1 else 0))"
| "py_eq PyNone PyNone = True"
| "py_eq (PyObj a) (PyObj b) = (a = b)"
| "py_eq _ _ = False"

text \<open>\<open>x in (a, b, c)\<close>: some element of the tuple equals \<open>x\<close>.\<close>

definition py_in :: "pyval \<Rightarrow> pyval list \<Rightarrow> bool" where
  "py_in x ys = list_ex (py_eq x) ys"

type_synonym config = "string \<rightharpoonup> pyval"

text \<open>\<open>d.get(k)\<close>: the value, or \<open>None\<close> when the key is absent.\<close>

definition dict_get :: "config \<Rightarrow> string \<Rightarrow> pyval" where
  "dict_get d k = (case d k of None \<Rightarrow> PyNone | Some v \<Rightarrow> v)"

subsection \<open>Exceptions, collaborator calls and the process state\<close>

text \<open>
  The namespaces the hand-off can pass to \<open>exec\<close>: the dictionary of \<open>__main__\<close>
  and the dictionary of the debugger module itself.
\<close>

datatype nsref = MainDict | ModuleDict

text \<open>
  Everything \<open>_StartDebugger\<close> and the hand-off do to the outside world, in the order
  of the source: the five local imports, the calls into the collaborators, and the
  final \<open>exec\<close> of the application.
\<close>

datatype effect =
    Import string
  | InitializeModule "config option"
  | NewGcpHubClient
  | NewBreakpointsManager
  | AppendPrettyPrinter
  | SetOnActiveBreakpointsChanged
  | SetOnIdle
  | EnableServiceAccountAuth pyval pyval pyval pyval
  | EnableGceAuth
  | InitializeDebuggeeLabels "config option"
  | Start
  | ExecFile string nsref nsref

text \<open>
  \<open>ValueError\<close> is what the tuple assignment of line 85 raises (the spec's
  MalformedFlag); \<open>RuntimeError\<close> is raised by \<open>AttachDebugger\<close> (the spec's
  AlreadyAttached); \<open>Raised e\<close> is any exception coming out of the call \<open>e\<close>.
\<close>

datatype pyerror =
    IndexError
  | ValueError
  | KeyError string
  | AttributeError
  | RuntimeError string
  | Raised effect

text \<open>
  The collaborators are outside this module. Whether a call raises may depend on the
  calls made before it, so the environment is a predicate on the history and the call.
\<close>

type_synonym collab = "effect list \<Rightarrow> effect \<Rightarrow> bool"

record state =
  flags :: "config option"
  argv :: "string list"
  sys_path :: "string list"
  main_dict :: "string \<rightharpoonup> pyval"
  builtins :: pyval
  calls :: "effect list"

type_synonym 'a result = "(pyerror + 'a) \<times> state"

text \<open>One call: it is recorded when it is invoked, and then returns or raises.\<close>

definition call :: "collab \<Rightarrow> effect \<Rightarrow> state \<Rightarrow> unit result" where
  "call env e s =
     (let s' = s\<lparr>calls := calls s @ [e]\<rparr>
      in if env (calls s) e then (Inl (Raised e), s') else (Inr (), s'))"

text \<open>Consecutive statements: the first exception ends the sequence.\<close>

fun run_calls :: "collab \<Rightarrow> effect list \<Rightarrow> state \<Rightarrow> unit result" where
  "run_calls env [] s = (Inr (), s)"
| "run_calls env (e # es) s =
     (case call env e s of
        (Inl x, s') \<Rightarrow> (Inl x, s')
      | (Inr _, s') \<Rightarrow> run_calls env es s')"

subsection \<open>\<open>_StartDebugger\<close> (lines 35-66)\<close>

text \<open>\<open>d[k]\<close> raises \<open>KeyError\<close> on an absent key.\<close>

definition dict_item :: "config \<Rightarrow> string \<Rightarrow> pyerror + pyval" where
  "dict_item d k = (case d k of None \<Rightarrow> Inl (KeyError k) | Some v \<Rightarrow> Inr v)"

text \<open>
  Lines 57-64: the test of the flag, and the call it selects. The four arguments
  of \<open>EnableServiceAccountAuth\<close> are evaluated left to right before the call.
\<close>

definition service_account_enabled :: "config \<Rightarrow> bool" where
  "service_account_enabled fl =
     py_in (dict_get fl ''enable_service_account_auth'')
           [PyStr ''1'', PyStr ''true'', PyBool True]"

definition auth_call :: "config \<Rightarrow> pyerror + effect" where
  "auth_call fl =
     (if service_account_enabled fl then
        (case dict_item fl ''project_id'' of Inl e \<Rightarrow> Inl e | Inr a \<Rightarrow>
        (case dict_item fl ''project_number'' of Inl e \<Rightarrow> Inl e | Inr b \<Rightarrow>
        (case dict_item fl ''service_account_email'' of Inl e \<Rightarrow> Inl e | Inr c \<Rightarrow>
        (case dict_item fl ''service_account_p12_file'' of Inl e \<Rightarrow> Inl e | Inr d \<Rightarrow>
           Inr (EnableServiceAccountAuth a b c d)))))
      else Inr EnableGceAuth)"

definition local_imports :: "effect list" where
  "local_imports = [Import ''appengine_pretty_printers'',
                    Import ''breakpoints_manager'',
                    Import ''capture_collector'', Import ''cdbg_native'',
                    Import ''gcp_hub_client'']"

definition StartDebugger :: "collab \<Rightarrow> state \<Rightarrow> unit result" where
  "StartDebugger env s =
     (case run_calls env
             (local_imports @
              [InitializeModule (flags s), NewGcpHubClient, NewBreakpointsManager,
               AppendPrettyPrinter, SetOnActiveBreakpointsChanged, SetOnIdle]) s of
        (Inl x, s1) \<Rightarrow> (Inl x, s1)
      | (Inr _, s1) \<Rightarrow>
          (case flags s1 of
             None \<Rightarrow> (Inl AttributeError, s1)
           | Some fl \<Rightarrow>
               (case auth_call fl of
                  Inl x \<Rightarrow> (Inl x, s1)
                | Inr a \<Rightarrow>
                    run_calls env [a, InitializeDebuggeeLabels (flags s1), Start] s1)))"

subsection \<open>\<open>_DebuggerMain\<close> (lines 69-102)\<close>

text \<open>\<open>s.strip(c)\<close> removes the character at both ends.\<close>

definition str_strip :: "char \<Rightarrow> string \<Rightarrow> string" where
  "str_strip c s = rev (dropWhile (\<lambda>x. x = c) (rev (dropWhile (\<lambda>x. x = c) s)))"

text \<open>\<open>s.split(c, n)\<close>: at most \<open>n\<close> splits, so at most \<open>n + 1\<close> parts.\<close>

fun str_split :: "char \<Rightarrow> nat \<Rightarrow> string \<Rightarrow> string list" where
  "str_split c 0 s = [s]"
| "str_split c (Suc n) s =
     (if c \<in> set s
      then takeWhile (\<lambda>x. x \<noteq> c) s # str_split c n (tl (dropWhile (\<lambda>x. x \<noteq> c) s))
      else [s])"

text \<open>
  Line 85: \<open>(name, value) = arg.strip('-').split('=', 2)\<close>. The assignment to
  two targets raises \<open>ValueError\<close> unless the list has exactly two elements.
\<close>

definition unpack2 :: "string list \<Rightarrow> pyerror + string \<times> string" where
  "unpack2 parts = (case parts of [name, val] \<Rightarrow> Inr (name, val) | _ \<Rightarrow> Inl ValueError)"

definition parse_arg :: "string \<Rightarrow> pyerror + string \<times> string" where
  "parse_arg arg = unpack2 (str_split CHR ''='' 2 (str_strip CHR ''-'' arg))"

text \<open>
  The loop of lines 78-86 on \<open>sys.argv\<close> and \<open>_flags\<close>. The test \<open>sys.argv[0]\<close>
  raises on the empty list and is false on the empty string. The result is the
  outcome together with what is left of \<open>sys.argv\<close> and the dictionary so far.
\<close>

fun parse_flags :: "string list \<Rightarrow> config \<Rightarrow> (pyerror + unit) \<times> string list \<times> config" where
  "parse_flags [] fl = (Inl IndexError, [], fl)"
| "parse_flags (arg # rest) fl =
     (if arg = [] then (Inr (), arg # rest, fl)
      else if arg = ''--'' then (Inr (), rest, fl)
      else (case parse_arg arg of
              Inl x \<Rightarrow> (Inl x, rest, fl)
            | Inr (name, val) \<Rightarrow> parse_flags rest (fl(name \<mapsto> PyStr val))))"

text \<open>
  \<open>os.path.dirname\<close> of the standard library (posixpath): everything up to the last
  slash, without trailing slashes unless it consists of slashes only.
\<close>

definition dirname :: "string \<Rightarrow> string" where
  "dirname p =
     (let head = rev (dropWhile (\<lambda>x. x \<noteq> CHR ''/'') (rev p))
      in if head \<noteq> [] \<and> \<not> list_all (\<lambda>x. x = CHR ''/'') head
         then rev (dropWhile (\<lambda>x. x = CHR ''/'') (rev head)) else head)"

text \<open>
  Lines 91-102: the hand-off. \<open>locals = globals = __main__.__dict__\<close> binds both
  names to the one dictionary of \<open>__main__\<close>.
\<close>

definition run_app :: "collab \<Rightarrow> state \<Rightarrow> unit result" where
  "run_app env s =
     (case argv s of
        [] \<Rightarrow> (Inl IndexError, s)
      | app_path # _ \<Rightarrow>
          (case sys_path s of
             [] \<Rightarrow> (Inl IndexError, s)
           | _ # ps \<Rightarrow>
               (let s1 = s\<lparr>sys_path := dirname app_path # ps\<rparr>;
                    s2 = s1\<lparr>main_dict := Map.empty\<rparr>;
                    s3 = s2\<lparr>main_dict := (main_dict s2)
                            (''__name__'' \<mapsto> PyStr ''__main__'',
                             ''__file__'' \<mapsto> PyStr app_path,
                             ''__builtins__'' \<mapsto> builtins s2)\<rparr>;
                    globals = MainDict;
                    locals = globals
                in call env (ExecFile app_path globals locals) s3)))"

definition DebuggerMain :: "collab \<Rightarrow> state \<Rightarrow> unit result" where
  "DebuggerMain env s =
     (case argv s of
        [] \<Rightarrow> (Inl IndexError, s)
      | _ # av \<Rightarrow>
          (case parse_flags av Map.empty of
             (r, av', fl) \<Rightarrow>
               (let s1 = s\<lparr>flags := Some fl, argv := av'\<rparr>
                in case r of
                     Inl x \<Rightarrow> (Inl x, s1)
                   | Inr _ \<Rightarrow>
                       (case StartDebugger env s1 of
                          (Inl x, s2) \<Rightarrow> (Inl x, s2)
                        | (Inr _, s2) \<Rightarrow> run_app env s2))))"

subsection \<open>\<open>AttachDebugger\<close> (lines 105-123)\<close>

definition AttachDebugger :: "config \<Rightarrow> collab \<Rightarrow> state \<Rightarrow> unit result" where
  "AttachDebugger kwargs env s =
     (if flags s \<noteq> None
      then (Inl (RuntimeError ''Debugger already attached''), s)
      else StartDebugger env (s\<lparr>flags := Some kwargs\<rparr>))"

subsection \<open>Auxiliary notions for the statements\<close>

text \<open>A token is a flag when line 85 accepts it; \<open>flags_of\<close> stores them in order.\<close>

definition is_flag :: "string \<Rightarrow> bool" where
  "is_flag arg = (case parse_arg arg of Inl _ \<Rightarrow> False | Inr _ \<Rightarrow> True)"

fun flags_of :: "string list \<Rightarrow> config \<Rightarrow> config" where
  "flags_of [] fl = fl"
| "flags_of (arg # rest) fl =
     (case parse_arg arg of
        Inl _ \<Rightarrow> flags_of rest fl
      | Inr (name, val) \<Rightarrow> flags_of rest (fl(name \<mapsto> PyStr val)))"

text \<open>The calls of a complete \<open>_StartDebugger\<close> after its imports, in source order.\<close>

definition attach_steps :: "config \<Rightarrow> effect \<Rightarrow> effect list" where
  "attach_steps fl a =
     [InitializeModule (Some fl), NewGcpHubClient, NewBreakpointsManager,
      AppendPrettyPrinter, SetOnActiveBreakpointsChanged, SetOnIdle,
      a, InitializeDebuggeeLabels (Some fl), Start]"

text \<open>Several calls of \<open>AttachDebugger\<close> one after the other, with their outcomes.\<close>

fun AttachDebugger_seq :: "config list \<Rightarrow> collab \<Rightarrow> state \<Rightarrow> (pyerror + unit) list \<times> state" where
  "AttachDebugger_seq [] env s = ([], s)"
| "AttachDebugger_seq (kw # kws) env s =
     (case AttachDebugger kw env s of
        (r, s') \<Rightarrow> (case AttachDebugger_seq kws env s' of (rs, s'') \<Rightarrow> (r # rs, s'')))"

text \<open>A fresh process for the examples, and collaborators that never raise.\<close>

definition init_state :: "string list \<Rightarrow> state" where
  "init_state av =
     \<lparr>flags = None, argv = av, sys_path = [''/opt/cdbg''],
      main_dict = [''__name__'' \<mapsto> PyStr ''__main__'', ''launcher'' \<mapsto> PyObj 1],
      builtins = PyObj 0, calls = []\<rparr>"

definition no_raise :: collab where
  "no_raise = (\<lambda>_ _. False)"

section \<open>Basic facts about the model\<close>

lemma is_flag_nonempty: "is_flag a \<Longrightarrow> a \<noteq> [] \<and> a \<noteq> ''--''"
  by (auto simp: is_flag_def parse_arg_def unpack2_def str_strip_def numeral_2_eq_2)

lemma not_flag_no_eq: "CHR ''='' \<notin> set a \<Longrightarrow> parse_arg a = Inl ValueError"
proof -
  assume h: "CHR ''='' \<notin> set a"
  have "set (str_strip CHR ''-'' a) \<subseteq> set a"
    unfolding str_strip_def by (auto dest!: set_dropWhileD)
  with h have "CHR ''='' \<notin> set (str_strip CHR ''-'' a)" by blast
  then show ?thesis by (simp add: parse_arg_def unpack2_def numeral_2_eq_2)
qed

lemma parse_arg_error: "parse_arg a = Inl x \<Longrightarrow> x = ValueError"
  by (auto simp: parse_arg_def unpack2_def split: list.splits)

lemma parse_flags_step:
  "is_flag a \<Longrightarrow> parse_flags (a # rest) fl = parse_flags rest (flags_of [a] fl)"
  using is_flag_nonempty [of a]
  by (auto simp: is_flag_def split: sum.splits)

lemma flags_of_append: "flags_of (xs @ ys) fl = flags_of ys (flags_of xs fl)"
  by (induction xs arbitrary: fl) (auto split: sum.splits)

lemma parse_flags_prefix:
  "\<forall>t\<in>set fs. is_flag t \<Longrightarrow> parse_flags (fs @ rest) fl = parse_flags rest (flags_of fs fl)"
proof (induction fs arbitrary: fl)
  case Nil
  then show ?case by simp
next
  case (Cons a fs)
  then have a: "is_flag a" and fs: "\<forall>t\<in>set fs. is_flag t" by simp_all
  have "parse_flags ((a # fs) @ rest) fl = parse_flags (fs @ rest) (flags_of [a] fl)"
    using parse_flags_step [OF a] by simp
  also have "\<dots> = parse_flags rest (flags_of fs (flags_of [a] fl))"
    using Cons.IH [OF fs] .
  also have "flags_of fs (flags_of [a] fl) = flags_of (a # fs) fl"
    using flags_of_append [of "[a]" fs fl] by simp
  finally show ?case .
qed

lemma call_fields:
  "flags (snd (call env e s)) = flags s \<and> argv (snd (call env e s)) = argv s \<and>
   sys_path (snd (call env e s)) = sys_path s \<and> main_dict (snd (call env e s)) = main_dict s \<and>
   builtins (snd (call env e s)) = builtins s \<and> calls (snd (call env e s)) = calls s @ [e]"
  by (simp add: call_def Let_def)

lemma run_calls_fields:
  "flags (snd (run_calls env es s)) = flags s \<and> argv (snd (run_calls env es s)) = argv s \<and>
   sys_path (snd (run_calls env es s)) = sys_path s \<and>
   main_dict (snd (run_calls env es s)) = main_dict s \<and>
   builtins (snd (run_calls env es s)) = builtins s"
proof (induction es arbitrary: s)
  case Nil
  then show ?case by simp
next
  case (Cons e es)
  show ?case
  proof (cases "env (calls s) e")
    case True
    then show ?thesis by (simp add: call_def Let_def)
  next
    case False
    then have "run_calls env (e # es) s = run_calls env es (s\<lparr>calls := calls s @ [e]\<rparr>)"
      by (simp add: call_def Let_def)
    then show ?thesis using Cons.IH [of "s\<lparr>calls := calls s @ [e]\<rparr>"] by simp
  qed
qed

lemma run_calls_error: "fst (run_calls env es s) = Inl x \<Longrightarrow> \<exists>e. x = Raised e"
proof (induction es arbitrary: s)
  case Nil
  then show ?case by simp
next
  case (Cons e es)
  show ?case
  proof (cases "env (calls s) e")
    case True
    with Cons.prems show ?thesis by (auto simp: call_def Let_def)
  next
    case False
    then have "run_calls env (e # es) s = run_calls env es (s\<lparr>calls := calls s @ [e]\<rparr>)"
      by (simp add: call_def Let_def)
    with Cons show ?thesis by simp
  qed
qed

lemma run_calls_error_pair: "run_calls env es s = (Inl x, s') \<Longrightarrow> \<exists>e. x = Raised e"
  using run_calls_error [of env es s x] by simp

lemma run_calls_trace:
  "\<exists>n\<le>length es.
     calls (snd (run_calls env es s)) = calls s @ take n es \<and>
     (\<forall>i. Suc i < n \<longrightarrow> \<not> env (calls s @ take i es) (es ! i)) \<and>
     (fst (run_calls env es s) = Inr () \<longrightarrow> n = length es)"
proof (induction es arbitrary: s)
  case Nil
  then show ?case by simp
next
  case (Cons e es)
  show ?case
  proof (cases "env (calls s) e")
    case True
    then have "calls (snd (run_calls env (e # es) s)) = calls s @ take 1 (e # es)"
      and "fst (run_calls env (e # es) s) \<noteq> Inr ()"
      by (simp_all add: call_def Let_def)
    then show ?thesis
      by (intro exI [of _ 1]) simp
  next
    case False
    let ?s = "s\<lparr>calls := calls s @ [e]\<rparr>"
    from False have eq: "run_calls env (e # es) s = run_calls env es ?s"
      by (simp add: call_def Let_def)
    from Cons.IH [of ?s] obtain m where m: "m \<le> length es"
      and tr: "calls (snd (run_calls env es ?s)) = calls ?s @ take m es"
      and nr: "\<forall>i. Suc i < m \<longrightarrow> \<not> env (calls ?s @ take i es) (es ! i)"
      and ok: "fst (run_calls env es ?s) = Inr () \<longrightarrow> m = length es"
      by blast
    have "\<forall>i. Suc i < Suc m \<longrightarrow> \<not> env (calls s @ take i (e # es)) ((e # es) ! i)"
    proof (intro allI impI)
      fix i assume i: "Suc i < Suc m"
      show "\<not> env (calls s @ take i (e # es)) ((e # es) ! i)"
      proof (cases i)
        case 0
        with False show ?thesis by simp
      next
        case (Suc j)
        with i nr have "\<not> env (calls ?s @ take j es) (es ! j)" by simp
        with Suc show ?thesis by simp
      qed
    qed
    with m tr ok eq show ?thesis
      by (intro exI [of _ "Suc m"]) simp
  qed
qed

lemma run_calls_append:
  "run_calls env (xs @ ys) s =
     (case run_calls env xs s of (Inl x, s') \<Rightarrow> (Inl x, s') | (Inr _, s') \<Rightarrow> run_calls env ys s')"
  by (induction xs arbitrary: s) (auto split: prod.splits sum.splits)

lemma auth_call_cases:
  "auth_call fl = Inr EnableGceAuth \<or> (\<exists>a b c d. auth_call fl = Inr (EnableServiceAccountAuth a b c d))
   \<or> (\<exists>k. auth_call fl = Inl (KeyError k))"
  by (auto simp: auth_call_def dict_item_def split: option.splits)

lemma StartDebugger_auth_ok:
  assumes "flags s = Some fl" and "auth_call fl = Inr a"
  shows "StartDebugger env s = run_calls env (local_imports @ attach_steps fl a) s"
proof -
  let ?xs = "local_imports @
              [InitializeModule (flags s), NewGcpHubClient, NewBreakpointsManager,
               AppendPrettyPrinter, SetOnActiveBreakpointsChanged, SetOnIdle]"
  let ?ys = "[a, InitializeDebuggeeLabels (Some fl), Start]"
  have split: "local_imports @ attach_steps fl a = ?xs @ ?ys"
    using assms(1) by (simp add: attach_steps_def)
  obtain r s1 where r: "run_calls env ?xs s = (r, s1)" by (cases "run_calls env ?xs s")
  have fl: "flags s1 = Some fl"
    using run_calls_fields [of env ?xs s] r assms(1) by simp
  have "run_calls env (?xs @ ?ys) s =
          (case run_calls env ?xs s of (Inl x, s') \<Rightarrow> (Inl x, s') | (Inr _, s') \<Rightarrow> run_calls env ?ys s')"
    by (rule run_calls_append)
  also have "\<dots> = StartDebugger env s"
    using r fl assms(2) by (simp add: StartDebugger_def split: sum.splits)
  finally show ?thesis using split by simp
qed

lemma StartDebugger_auth_err:
  assumes "flags s = Some fl" and "auth_call fl = Inl x"
  shows "StartDebugger env s =
           (case run_calls env (local_imports @ take 6 (attach_steps fl a)) s of
              (Inl y, s1) \<Rightarrow> (Inl y, s1) | (Inr _, s1) \<Rightarrow> (Inl x, s1))"
proof -
  let ?xs = "local_imports @
              [InitializeModule (flags s), NewGcpHubClient, NewBreakpointsManager,
               AppendPrettyPrinter, SetOnActiveBreakpointsChanged, SetOnIdle]"
  have split: "local_imports @ take 6 (attach_steps fl a) = ?xs"
    using assms(1) by (simp add: attach_steps_def)
  obtain r s1 where r: "run_calls env ?xs s = (r, s1)" by (cases "run_calls env ?xs s")
  have fl: "flags s1 = Some fl"
    using run_calls_fields [of env ?xs s] r assms(1) by simp
  show ?thesis
    unfolding split
    using r fl assms(2) by (simp add: StartDebugger_def split: sum.splits)
qed

lemma StartDebugger_none:
  assumes "flags s = None"
  shows "StartDebugger env s =
           (case run_calls env (local_imports @
              [InitializeModule None, NewGcpHubClient, NewBreakpointsManager,
               AppendPrettyPrinter, SetOnActiveBreakpointsChanged, SetOnIdle]) s of
              (Inl y, s1) \<Rightarrow> (Inl y, s1) | (Inr _, s1) \<Rightarrow> (Inl AttributeError, s1))"
proof -
  let ?xs = "local_imports @
              [InitializeModule None, NewGcpHubClient, NewBreakpointsManager,
               AppendPrettyPrinter, SetOnActiveBreakpointsChanged, SetOnIdle]"
  obtain r s1 where r: "run_calls env ?xs s = (r, s1)" by (cases "run_calls env ?xs s")
  have fl: "flags s1 = None"
    using run_calls_fields [of env ?xs s] r assms(1) by simp
  show ?thesis
    using r fl assms by (simp add: StartDebugger_def split: sum.splits)
qed

lemma snd_fail:
  "snd (case p of (Inl y, s1) \<Rightarrow> (Inl y, s1) | (Inr u, s1) \<Rightarrow> (Inl x, s1)) = snd p"
  by (auto split: prod.splits sum.splits)

lemma StartDebugger_fields:
  "flags (snd (StartDebugger env s)) = flags s \<and> argv (snd (StartDebugger env s)) = argv s \<and>
   sys_path (snd (StartDebugger env s)) = sys_path s \<and>
   main_dict (snd (StartDebugger env s)) = main_dict s \<and>
   builtins (snd (StartDebugger env s)) = builtins s"
proof (cases "flags s")
  case None
  show ?thesis
    unfolding StartDebugger_none [OF None] snd_fail by (rule run_calls_fields)
next
  case (Some fl)
  show ?thesis
  proof (cases "auth_call fl")
    case (Inl x)
    show ?thesis
      unfolding StartDebugger_auth_err [OF Some Inl, of env EnableGceAuth] snd_fail
      by (rule run_calls_fields)
  next
    case (Inr a)
    show ?thesis
      unfolding StartDebugger_auth_ok [OF Some Inr] by (rule run_calls_fields)
  qed
qed

lemma StartDebugger_error:
  assumes "fst (StartDebugger env s) = Inl x"
  shows "(\<exists>e. x = Raised e) \<or> (\<exists>k. x = KeyError k) \<or> x = AttributeError"
proof (cases "flags s")
  case None
  show ?thesis
    using assms unfolding StartDebugger_none [OF None]
    by (auto split: prod.splits sum.splits dest: run_calls_error_pair)
next
  case (Some fl)
  show ?thesis
  proof (cases "auth_call fl")
    case (Inl y)
    with auth_call_cases [of fl] have "\<exists>k. y = KeyError k" by auto
    then show ?thesis
      using assms
      unfolding StartDebugger_auth_err [OF Some Inl, of env EnableGceAuth]
      by (auto split: prod.splits sum.splits dest: run_calls_error_pair)
  next
    case (Inr a)
    show ?thesis
      using assms run_calls_error [of env _ s]
      unfolding StartDebugger_auth_ok [OF Some Inr] by blast
  qed
qed

lemma run_app_fields:
  "flags (snd (run_app env s)) = flags s \<and> argv (snd (run_app env s)) = argv s \<and>
   builtins (snd (run_app env s)) = builtins s"
  by (simp add: run_app_def call_def Let_def split: list.splits)

lemma run_app_error: "fst (run_app env s) = Inl x \<Longrightarrow> x = IndexError \<or> (\<exists>e. x = Raised e)"
  by (auto simp: run_app_def call_def Let_def split: list.splits if_splits)

lemma run_app_reached:
  assumes "argv s = app # r" and "sys_path s \<noteq> []"
  shows "calls (snd (run_app env s)) = calls s @ [ExecFile app MainDict MainDict] \<and>
         main_dict (snd (run_app env s)) =
           [''__name__'' \<mapsto> PyStr ''__main__'', ''__file__'' \<mapsto> PyStr app,
            ''__builtins__'' \<mapsto> builtins s] \<and>
         sys_path (snd (run_app env s)) = dirname app # tl (sys_path s)"
  using assms by (cases "sys_path s") (simp_all add: run_app_def call_def Let_def)

lemma DebuggerMain_after_parse:
  assumes "argv s = t0 # av" and "parse_flags av Map.empty = (Inr (), av', fl)"
  shows "DebuggerMain env s =
           (case StartDebugger env (s\<lparr>flags := Some fl, argv := av'\<rparr>) of
              (Inl x, s2) \<Rightarrow> (Inl x, s2) | (Inr _, s2) \<Rightarrow> run_app env s2)"
  using assms by (simp add: DebuggerMain_def)

lemma DebuggerMain_parsed_fields:
  assumes "argv s = t0 # av" and "parse_flags av Map.empty = (Inr (), av', fl)"
  shows "flags (snd (DebuggerMain env s)) = Some fl \<and> argv (snd (DebuggerMain env s)) = av' \<and>
         fst (DebuggerMain env s) \<noteq> Inl ValueError"
proof -
  let ?s1 = "s\<lparr>flags := Some fl, argv := av'\<rparr>"
  obtain r s2 where st: "StartDebugger env ?s1 = (r, s2)" by (cases "StartDebugger env ?s1")
  have f2: "flags s2 = Some fl \<and> argv s2 = av'"
    using StartDebugger_fields [of env ?s1] st by simp
  show ?thesis
  proof (cases r)
    case (Inl x)
    have "x \<noteq> ValueError" using StartDebugger_error [of env ?s1 x] st Inl by auto
    then show ?thesis
      using DebuggerMain_after_parse [OF assms, of env] st Inl f2 by simp
  next
    case (Inr u)
    have "fst (run_app env s2) \<noteq> Inl ValueError"
      using run_app_error [of env s2 ValueError] by auto
    then show ?thesis
      using DebuggerMain_after_parse [OF assms, of env] st Inr f2 run_app_fields [of env s2]
      by simp
  qed
qed

lemma AttachDebugger_attached:
  "flags s \<noteq> None \<Longrightarrow>
   AttachDebugger kw env s = (Inl (RuntimeError ''Debugger already attached''), s)"
  by (simp add: AttachDebugger_def)

lemma AttachDebugger_flags: "flags (snd (AttachDebugger kw env s)) \<noteq> None"
  using StartDebugger_fields [of env "s\<lparr>flags := Some kw\<rparr>"]
  by (simp add: AttachDebugger_def)

lemma AttachDebugger_records:
  "flags s = None \<Longrightarrow> flags (snd (AttachDebugger kw env s)) = Some kw"
  using StartDebugger_fields [of env "s\<lparr>flags := Some kw\<rparr>"]
  by (simp add: AttachDebugger_def)

lemma DebuggerMain_flags:
  assumes "argv s \<noteq> []"
  shows "flags (snd (DebuggerMain env s)) \<noteq> None"
proof -
  from assms obtain t0 av where av: "argv s = t0 # av" by (cases "argv s") auto
  obtain r av' fl where p: "parse_flags av Map.empty = (r, av', fl)"
    by (cases "parse_flags av Map.empty")
  show ?thesis
  proof (cases r)
    case (Inl x)
    with av p show ?thesis by (simp add: DebuggerMain_def)
  next
    case (Inr u)
    with p have "parse_flags av Map.empty = (Inr (), av', fl)" by simp
    from DebuggerMain_parsed_fields [OF av this, of env] show ?thesis by simp
  qed
qed

lemma AttachDebugger_seq_attached:
  "flags s \<noteq> None \<Longrightarrow>
   AttachDebugger_seq kws env s =
     (replicate (length kws) (Inl (RuntimeError ''Debugger already attached'')), s)"
  by (induction kws) (simp_all add: AttachDebugger_attached)

section \<open>The claims\<close>

subsection \<open>Flag parsing\<close>

text \<open>
  Claim C5. The claim: a consumed token \<open>--name=value\<close> is stripped of its leading
  dashes and split once on \<open>=\<close>, so \<open>--a=b=c\<close> yields the flag \<open>a\<close> with value
  \<open>b=c\<close>. The code passes 2 as the split limit, so \<open>a=b=c\<close> splits into three parts
  and the assignment to two targets raises \<open>ValueError\<close>: run on
  \<open>["cdbg", "--a=b=c", "--", "app.py"]\<close>, \<open>_DebuggerMain\<close> stops with that error, the
  token consumed, no flag stored and no collaborator called.
\<close>

theorem split_limit_two_rejects_value_with_equals:
  "str_split CHR ''='' 2 (str_strip CHR ''-'' ''--a=b=c'') = [''a'', ''b'', ''c''] \<and>
   parse_arg ''--a=b=c'' = Inl ValueError \<and>
   DebuggerMain no_raise (init_state [''cdbg'', ''--a=b=c'', ''--'', ''app.py'']) =
     (Inl ValueError, (init_state [''--'', ''app.py'']) \<lparr>flags := Some Map.empty\<rparr>)"
  by (simp add: DebuggerMain_def init_state_def parse_arg_def unpack2_def str_strip_def
        numeral_2_eq_2)

text \<open>
  Claim C6. When the tokens after token 0 are flags up to a token that is neither empty
  nor the separator and contains no \<open>=\<close> (the first one, when there are no flags
  before it), \<open>_DebuggerMain\<close> raises \<open>ValueError\<close> (MalformedFlag), and it has called
  no collaborator: the record of calls is the one it started with.
\<close>

theorem malformed_flag_fails_before_collaborators:
  assumes "argv s = t0 # fs @ bad # rest" and "\<forall>t\<in>set fs. is_flag t"
    and "bad \<noteq> []" and "bad \<noteq> ''--''" and "CHR ''='' \<notin> set bad"
  shows "fst (DebuggerMain env s) = Inl ValueError \<and>
         calls (snd (DebuggerMain env s)) = calls s"
proof -
  have "parse_flags (fs @ bad # rest) Map.empty = parse_flags (bad # rest) (flags_of fs Map.empty)"
    using parse_flags_prefix [OF assms(2)] .
  also have "\<dots> = (Inl ValueError, rest, flags_of fs Map.empty)"
    using assms(3,4) not_flag_no_eq [OF assms(5)] by simp
  finally show ?thesis using assms(1) by (simp add: DebuggerMain_def)
qed

text \<open>The example of the spec: \<open>--bad\<close> as the first token after the launcher.\<close>

theorem malformed_flag_fails_before_collaborators_witness:
  "argv (init_state [''cdbg'', ''--bad'', ''--'', ''app.py'']) =
     ''cdbg'' # [] @ ''--bad'' # [''--'', ''app.py''] \<and>
   CHR ''='' \<notin> set ''--bad'' \<and>
   fst (DebuggerMain no_raise (init_state [''cdbg'', ''--bad'', ''--'', ''app.py''])) = Inl ValueError \<and>
   calls (snd (DebuggerMain no_raise (init_state [''cdbg'', ''--bad'', ''--'', ''app.py'']))) = []"
  using malformed_flag_fails_before_collaborators
    [of "init_state [''cdbg'', ''--bad'', ''--'', ''app.py'']" "''cdbg''" "[]"
      "''--bad''" "[''--'', ''app.py'']" no_raise]
  by (simp add: init_state_def)

text \<open>
  Claim C4, as stated: without a separator, parsing ends without an out-of-range read
  and the hand-off gets an empty remainder. It fails on \<open>["cdbg", "--a=1"]\<close>: after
  the flag is consumed the loop test reads \<open>sys.argv[0]\<close> of the empty list, and
  \<open>_DebuggerMain\<close> ends with \<open>IndexError\<close> before \<open>_StartDebugger\<close> is called.
\<close>

theorem no_separator_counterexample:
  "DebuggerMain no_raise (init_state [''cdbg'', ''--a=1'']) =
     (Inl IndexError, (init_state []) \<lparr>flags := Some [''a'' \<mapsto> PyStr ''1'']\<rparr>)"
  by (simp add: DebuggerMain_def init_state_def parse_arg_def unpack2_def str_strip_def
        numeral_2_eq_2)

text \<open>
  Claim C4, amended. When every token after token 0 is a flag (so there is neither a
  separator nor an empty token), \<open>_DebuggerMain\<close> consumes them all, stores their
  flags, and then raises \<open>IndexError\<close> on the emptied argument list; nothing else
  of the state changes, so no collaborator is called and there is no hand-off.
\<close>

theorem no_separator_raises_index_error:
  assumes "argv s = t0 # fs" and "\<forall>t\<in>set fs. is_flag t"
  shows "DebuggerMain env s =
           (Inl IndexError, s\<lparr>flags := Some (flags_of fs Map.empty), argv := []\<rparr>)"
proof -
  have "parse_flags (fs @ []) Map.empty = parse_flags [] (flags_of fs Map.empty)"
    using parse_flags_prefix [OF assms(2)] .
  then show ?thesis using assms(1) by (simp add: DebuggerMain_def)
qed

theorem no_separator_raises_index_error_witness:
  "is_flag ''--a=1'' \<and> is_flag ''--b=2'' \<and>
   DebuggerMain no_raise (init_state [''cdbg'', ''--a=1'', ''--b=2'']) =
     (Inl IndexError,
      (init_state []) \<lparr>flags := Some [''a'' \<mapsto> PyStr ''1'', ''b'' \<mapsto> PyStr ''2'']\<rparr>)"
  using no_separator_raises_index_error
    [of "init_state [''cdbg'', ''--a=1'', ''--b=2'']" "''cdbg''" "[''--a=1'', ''--b=2'']" no_raise]
  by (simp add: init_state_def is_flag_def parse_arg_def unpack2_def str_strip_def numeral_2_eq_2)

text \<open>
  Claim C3, as stated: a token stream with exactly one separator yields the flags
  before the separator and leaves the tokens after it. It fails on
  \<open>["cdbg", "", "--", "app.py"]\<close>: the loop test \<open>while sys.argv[0]\<close> is false on
  the empty token, so the separator is never consumed and the remainder is
  \<open>["", "--", "app.py"]\<close>, not \<open>["app.py"]\<close>.
\<close>

theorem empty_token_before_separator_counterexample:
  "argv (snd (DebuggerMain no_raise (init_state [''cdbg'', [], ''--'', ''app.py'']))) =
     [[], ''--'', ''app.py''] \<and>
   argv (snd (DebuggerMain no_raise (init_state [''cdbg'', [], ''--'', ''app.py'']))) \<noteq>
     [''app.py''] \<and>
   fst (DebuggerMain no_raise (init_state [''cdbg'', [], ''--'', ''app.py''])) = Inr ()"
  by (simp add: DebuggerMain_def init_state_def StartDebugger_def local_imports_def call_def
        no_raise_def auth_call_def service_account_enabled_def dict_get_def py_in_def
        run_app_def Let_def)

text \<open>
  Claim C3, amended. When every token between token 0 and the first separator is a
  flag, \<open>_DebuggerMain\<close> discards token 0, records exactly the flags of those tokens
  (a later value for a name replaces an earlier one), and leaves in \<open>sys.argv\<close>
  exactly the tokens after the separator, whatever the collaborators do afterwards.
\<close>

theorem separator_splits_flags_and_remainder:
  assumes "argv s = t0 # fs @ ''--'' # rest" and "\<forall>t\<in>set fs. is_flag t"
  shows "flags (snd (DebuggerMain env s)) = Some (flags_of fs Map.empty) \<and>
         argv (snd (DebuggerMain env s)) = rest"
proof -
  have "parse_flags (fs @ ''--'' # rest) Map.empty =
          parse_flags (''--'' # rest) (flags_of fs Map.empty)"
    using parse_flags_prefix [OF assms(2)] .
  then have "parse_flags (fs @ ''--'' # rest) Map.empty = (Inr (), rest, flags_of fs Map.empty)"
    by simp
  from DebuggerMain_parsed_fields [OF assms(1) this, of env] show ?thesis by simp
qed

text \<open>The example of the spec.\<close>

theorem separator_splits_flags_and_remainder_witness:
  "is_flag ''--a=1'' \<and> is_flag ''--b=true'' \<and>
   flags (snd (DebuggerMain no_raise
     (init_state [''cdbg'', ''--a=1'', ''--b=true'', ''--'', ''app.py'', ''x'']))) =
     Some [''a'' \<mapsto> PyStr ''1'', ''b'' \<mapsto> PyStr ''true''] \<and>
   argv (snd (DebuggerMain no_raise
     (init_state [''cdbg'', ''--a=1'', ''--b=true'', ''--'', ''app.py'', ''x'']))) =
     [''app.py'', ''x'']"
  using separator_splits_flags_and_remainder
    [of "init_state [''cdbg'', ''--a=1'', ''--b=true'', ''--'', ''app.py'', ''x'']"
      "''cdbg''" "[''--a=1'', ''--b=true'']" "[''app.py'', ''x'']" no_raise]
  by (simp add: init_state_def is_flag_def parse_arg_def unpack2_def str_strip_def numeral_2_eq_2)

text \<open>
  Claim C9, as stated: whenever an empty token occurs before any separator, parsing
  stops at it without raising. It fails on \<open>["cdbg", "--bad", ""]\<close>: the token
  \<open>--bad\<close> comes first and raises \<open>ValueError\<close>, so the empty token is never reached.
\<close>

theorem malformed_flag_before_empty_token_counterexample:
  "fst (DebuggerMain no_raise (init_state [''cdbg'', ''--bad'', []])) = Inl ValueError"
  by (simp add: DebuggerMain_def init_state_def parse_arg_def unpack2_def str_strip_def
        numeral_2_eq_2)

text \<open>
  Claim C9, amended. When every token between token 0 and the first empty token is a
  flag, the parsing loop ends normally at the empty token and leaves it in
  \<open>sys.argv\<close>; \<open>_DebuggerMain\<close> does not raise \<open>ValueError\<close>, and once
  \<open>_StartDebugger\<close> has returned (with \<open>sys.path\<close> non-empty) the hand-off runs
  the empty string as the target path, which it also binds to \<open>__file__\<close>.
\<close>

theorem empty_token_stops_parsing:
  assumes "argv s = t0 # fs @ [] # rest" and "\<forall>t\<in>set fs. is_flag t"
  shows "parse_flags (fs @ [] # rest) Map.empty = (Inr (), [] # rest, flags_of fs Map.empty) \<and>
         fst (DebuggerMain env s) \<noteq> Inl ValueError \<and>
         flags (snd (DebuggerMain env s)) = Some (flags_of fs Map.empty) \<and>
         argv (snd (DebuggerMain env s)) = [] # rest \<and>
         (sys_path s \<noteq> [] \<and>
          fst (StartDebugger env (s\<lparr>flags := Some (flags_of fs Map.empty), argv := [] # rest\<rparr>))
            = Inr () \<longrightarrow>
          calls (snd (DebuggerMain env s)) =
            calls (snd (StartDebugger env
                     (s\<lparr>flags := Some (flags_of fs Map.empty), argv := [] # rest\<rparr>)))
            @ [ExecFile [] MainDict MainDict] \<and>
          main_dict (snd (DebuggerMain env s)) ''__file__'' = Some (PyStr []))"
proof -
  let ?fl = "flags_of fs Map.empty"
  let ?s1 = "s\<lparr>flags := Some ?fl, argv := [] # rest\<rparr>"
  have "parse_flags (fs @ [] # rest) Map.empty = parse_flags ([] # rest) ?fl"
    using parse_flags_prefix [OF assms(2)] .
  then have p: "parse_flags (fs @ [] # rest) Map.empty = (Inr (), [] # rest, ?fl)"
    by simp
  note fields = DebuggerMain_parsed_fields [OF assms(1) p, of env]
  have "calls (snd (DebuggerMain env s)) =
          calls (snd (StartDebugger env ?s1)) @ [ExecFile [] MainDict MainDict] \<and>
        main_dict (snd (DebuggerMain env s)) ''__file__'' = Some (PyStr [])"
    if sp: "sys_path s \<noteq> []" and ok: "fst (StartDebugger env ?s1) = Inr ()"
  proof -
    obtain s2 where st: "StartDebugger env ?s1 = (Inr (), s2)"
      using ok by (cases "StartDebugger env ?s1") simp
    have "argv s2 = [] # rest" and "sys_path s2 \<noteq> []"
      using StartDebugger_fields [of env ?s1] st sp by simp_all
    from run_app_reached [OF this, of env] show ?thesis
      using DebuggerMain_after_parse [OF assms(1) p, of env] st by simp
  qed
  with fields p show ?thesis by blast
qed

theorem empty_token_stops_parsing_witness:
  "is_flag ''--a=1'' \<and>
   fst (DebuggerMain no_raise (init_state [''cdbg'', ''--a=1'', [], ''--'', ''app.py''])) = Inr () \<and>
   argv (snd (DebuggerMain no_raise (init_state [''cdbg'', ''--a=1'', [], ''--'', ''app.py'']))) =
     [[], ''--'', ''app.py''] \<and>
   last (calls (snd (DebuggerMain no_raise
     (init_state [''cdbg'', ''--a=1'', [], ''--'', ''app.py''])))) = ExecFile [] MainDict MainDict \<and>
   main_dict (snd (DebuggerMain no_raise
     (init_state [''cdbg'', ''--a=1'', [], ''--'', ''app.py'']))) ''__file__'' = Some (PyStr [])"
proof -
  let ?s = "init_state [''cdbg'', ''--a=1'', [], ''--'', ''app.py'']"
  have f: "is_flag ''--a=1''"
    by (simp add: is_flag_def parse_arg_def unpack2_def str_strip_def numeral_2_eq_2)
  have r: "fst (DebuggerMain no_raise ?s) = Inr ()"
    by (simp add: DebuggerMain_def init_state_def StartDebugger_def local_imports_def call_def
        no_raise_def auth_call_def service_account_enabled_def dict_get_def py_in_def
        run_app_def Let_def parse_arg_def unpack2_def str_strip_def numeral_2_eq_2)
  have ok: "sys_path ?s \<noteq> [] \<and>
     fst (StartDebugger no_raise (?s\<lparr>flags := Some (flags_of [''--a=1''] Map.empty),
            argv := [] # [''--'', ''app.py'']\<rparr>)) = Inr ()"
    by (simp add: init_state_def StartDebugger_def local_imports_def call_def
        no_raise_def auth_call_def service_account_enabled_def dict_get_def py_in_def
        Let_def parse_arg_def unpack2_def str_strip_def numeral_2_eq_2)
  from empty_token_stops_parsing [of ?s "''cdbg''" "[''--a=1'']" "[''--'', ''app.py'']" no_raise]
    f ok r
  show ?thesis by (simp add: init_state_def)
qed

subsection \<open>Attaching twice\<close>

text \<open>
  Claim C1, as stated: a second attach fails with \<open>RuntimeError\<close> (AlreadyAttached)
  for any combination of the two entry points. It fails when the second call is
  \<open>_DebuggerMain\<close>, which has no guard and rebinds \<open>_flags\<close> unconditionally: after
  \<open>AttachDebugger()\<close> has made its 14 calls, \<open>_DebuggerMain\<close> on
  \<open>["cdbg", "--", "app.py"]\<close> returns normally and every collaborator has been called
  a second time.
\<close>

theorem main_after_attach_counterexample:
  "fst (DebuggerMain no_raise
         (snd (AttachDebugger Map.empty no_raise (init_state [''cdbg'', ''--'', ''app.py''])))) = Inr () \<and>
   length (calls (snd (AttachDebugger Map.empty no_raise
                   (init_state [''cdbg'', ''--'', ''app.py''])))) = 14 \<and>
   length (calls (snd (DebuggerMain no_raise
         (snd (AttachDebugger Map.empty no_raise (init_state [''cdbg'', ''--'', ''app.py''])))))) = 29"
  by (simp add: AttachDebugger_def DebuggerMain_def init_state_def StartDebugger_def
        local_imports_def call_def no_raise_def auth_call_def service_account_enabled_def
        dict_get_def py_in_def run_app_def Let_def)

text \<open>
  Claim C1, amended. When the second call is \<open>AttachDebugger\<close>, it fails with
  \<open>RuntimeError('Debugger already attached')\<close> and changes nothing, whether the first
  call was \<open>_DebuggerMain\<close> (on a non-empty \<open>sys.argv\<close>) or \<open>AttachDebugger\<close>, and
  however that first call ended.
\<close>

theorem second_attach_fails_unchanged:
  "(argv s \<noteq> [] \<longrightarrow>
      AttachDebugger kw env (snd (DebuggerMain env0 s)) =
        (Inl (RuntimeError ''Debugger already attached''), snd (DebuggerMain env0 s))) \<and>
   AttachDebugger kw env (snd (AttachDebugger kw0 env0 s)) =
     (Inl (RuntimeError ''Debugger already attached''), snd (AttachDebugger kw0 env0 s))"
  using DebuggerMain_flags [of s env0] AttachDebugger_flags [of kw0 env0 s]
  by (simp add: AttachDebugger_attached)

theorem second_attach_fails_unchanged_witness:
  "argv (init_state [''cdbg'', ''--'', ''app.py'']) \<noteq> [] \<and>
   AttachDebugger [''a'' \<mapsto> PyInt 1] no_raise
     (snd (DebuggerMain no_raise (init_state [''cdbg'', ''--'', ''app.py'']))) =
     (Inl (RuntimeError ''Debugger already attached''),
      snd (DebuggerMain no_raise (init_state [''cdbg'', ''--'', ''app.py'']))) \<and>
   length (calls (snd (DebuggerMain no_raise (init_state [''cdbg'', ''--'', ''app.py''])))) = 15"
proof -
  have l: "length (calls (snd (DebuggerMain no_raise (init_state [''cdbg'', ''--'', ''app.py''])))) = 15"
    by (simp add: DebuggerMain_def init_state_def StartDebugger_def
        local_imports_def call_def no_raise_def auth_call_def service_account_enabled_def
        dict_get_def py_in_def run_app_def Let_def)
  from second_attach_fails_unchanged
    [of "init_state [''cdbg'', ''--'', ''app.py'']" "[''a'' \<mapsto> PyInt 1]"
      no_raise no_raise Map.empty] l
  show ?thesis by (simp add: init_state_def)
qed

text \<open>
  Claim C10. \<open>AttachDebugger\<close> binds \<open>_flags\<close> to its keyword mapping before it calls
  \<open>_StartDebugger\<close>. So when the first attach, in a process not yet attached, ends
  with an exception, \<open>_flags\<close> is that mapping, and every later \<open>AttachDebugger\<close>,
  with any arguments and any behaviour of the collaborators, fails with
  \<open>RuntimeError('Debugger already attached')\<close> and changes nothing; so does any
  sequence of them.
\<close>

theorem failed_attach_stays_attached:
  assumes "flags s = None" and "fst (AttachDebugger kw env s) = Inl x"
  shows "flags (snd (AttachDebugger kw env s)) = Some kw \<and>
         AttachDebugger kw' env' (snd (AttachDebugger kw env s)) =
           (Inl (RuntimeError ''Debugger already attached''), snd (AttachDebugger kw env s)) \<and>
         AttachDebugger_seq kws env' (snd (AttachDebugger kw env s)) =
           (replicate (length kws) (Inl (RuntimeError ''Debugger already attached'')),
            snd (AttachDebugger kw env s))"
  using AttachDebugger_records [OF assms(1), of kw env] AttachDebugger_flags [of kw env s]
  by (simp add: AttachDebugger_attached AttachDebugger_seq_attached)

text \<open>An attach whose \<open>Start\<close> raises, followed by two more attempts.\<close>

theorem failed_attach_stays_attached_witness:
  "flags (init_state []) = None \<and>
   fst (AttachDebugger [''a'' \<mapsto> PyInt 1] (\<lambda>h e. e = Start) (init_state [])) = Inl (Raised Start) \<and>
   AttachDebugger_seq [Map.empty, [''b'' \<mapsto> PyInt 2]] no_raise
     (snd (AttachDebugger [''a'' \<mapsto> PyInt 1] (\<lambda>h e. e = Start) (init_state []))) =
     ([Inl (RuntimeError ''Debugger already attached''),
       Inl (RuntimeError ''Debugger already attached'')],
      snd (AttachDebugger [''a'' \<mapsto> PyInt 1] (\<lambda>h e. e = Start) (init_state [])))"
proof -
  have n: "flags (init_state []) = None" by (simp add: init_state_def)
  have r: "fst (AttachDebugger [''a'' \<mapsto> PyInt 1] (\<lambda>h e. e = Start) (init_state [])) = Inl (Raised Start)"
    by (simp add: AttachDebugger_def init_state_def StartDebugger_def
        local_imports_def call_def auth_call_def service_account_enabled_def
        dict_get_def py_in_def Let_def)
  from failed_attach_stays_attached
    [OF n r, of Map.empty no_raise "[Map.empty, [''b'' \<mapsto> PyInt 2]]"] n r
  show ?thesis by (simp del: AttachDebugger_seq.simps)
qed

end
